theory Spec2Isabelle
  imports Main "HOL-Library.Multiset" "HOL-Library.Sublist" "HOL-Library.Word"
begin

section \<open>The graphics worker: data model\<close>

text \<open>
  The development embeds \<^verbatim>\<open>src/gfxworker/src/server.cpp\<close> (the Gfx Processor and the
  Request Processor) and the task and result types of the worker's task header.
  Collaborators whose code is outside the embedded sources (the image provider, the
  protocol reader and writer, the thread pool, \<^verbatim>\<open>std::sort\<close>) are parameters of the
  model or are recorded as effects in an explicit state.

  Modelling conventions:
  \<^item> a \<^verbatim>\<open>std::vector\<close> is a list and a \<^verbatim>\<open>std::string\<close> is a \<open>string\<close>; container sizes
    and indices are natural numbers (the \<^verbatim>\<open>int\<close> loop counter of the scatter loop is
    compared with a \<^verbatim>\<open>size_t\<close>, and is taken to be wide enough for the vectors at hand);
  \<^item> \<^verbatim>\<open>operator[]\<close> of a vector outside its range is undefined behaviour in C++; the
    model makes it the fault \<open>OutOfRange\<close>, raised where the subscript is evaluated, with
    the effects that came before it kept in the state;
  \<^item> a nullable \<^verbatim>\<open>const char*\<close> or \<^verbatim>\<open>shared_ptr\<close> is an \<open>option\<close>;
  \<^item> the log lines (\<^verbatim>\<open>LOG_err\<close>, \<^verbatim>\<open>LOG_info\<close>) are left out: no claim below speaks of
    them.
\<close>

text \<open>A requested output size: two \<^verbatim>\<open>int\<close> members read through \<^verbatim>\<open>w()\<close> and \<^verbatim>\<open>h()\<close>.\<close>

record GfxDimension =
  mWidth :: int
  mHeight :: int

record GfxTask =
  Path :: string
  Dimensions :: "GfxDimension list"

text \<open>\<^verbatim>\<open>enum class GfxTaskProcessStatus { SUCCESS = 0, ERR = 1, PENDING }\<close>\<close>

datatype GfxTaskProcessStatus = SUCCESS | ERR | PENDING

text \<open>The enumerators' values, as \<^verbatim>\<open>static_cast<uint32_t>\<close> reads them.\<close>

fun status_value :: "GfxTaskProcessStatus \<Rightarrow> nat" where
  "status_value SUCCESS = 0"
| "status_value ERR = 1"
| "status_value PENDING = 2"

record GfxTaskResult =
  ProcessStatus :: GfxTaskProcessStatus
  OutputImages :: "string list"

text \<open>\<^verbatim>\<open>LocalPath::fromPlatformEncodedAbsolute\<close> wraps the task's path; it is opaque here.\<close>

datatype LocalPath = fromPlatformEncodedAbsolute string

datatype fault = OutOfRange

subsection \<open>Commands and responses\<close>

datatype CommandType = HELLO | SHUTDOWN | NEW_GFX | SUPPORT_FORMATS

datatype ICommand =
    CommandHello
  | CommandShutDown
  | CommandNewGfx GfxTask
  | CommandSupportFormats

fun type_of_command :: "ICommand \<Rightarrow> CommandType" where
  "type_of_command CommandHello = HELLO"
| "type_of_command CommandShutDown = SHUTDOWN"
| "type_of_command (CommandNewGfx t) = NEW_GFX"
| "type_of_command CommandSupportFormats = SUPPORT_FORMATS"

record CommandNewGfxResponse =
  ErrorCode :: "32 word"
  ErrorText :: string
  Images :: "string list"

record CommandSupportFormatsResponse =
  formats :: string
  videoformats :: string

datatype response =
    HelloResponse
  | ShutDownResponse
  | NewGfxResponse CommandNewGfxResponse
  | SupportFormatsResponse CommandSupportFormatsResponse

subsection \<open>The state the worker acts on\<close>

text \<open>
  The effects of the code are kept in one record: the provider's own state (whatever a
  provider keeps between calls), the log of \<^verbatim>\<open>generateImages\<close> invocations, the
  closures pushed to \<^verbatim>\<open>mThreadPool\<close> (each closure captures the endpoint and the
  command), and the \<^verbatim>\<open>writeCommand\<close> invocations with their endpoint and timeout.
\<close>

record ('ps, 'e) world =
  provider_state :: 'ps
  provider_calls :: "(LocalPath \<times> GfxDimension list) list"
  pool_tasks :: "('e \<times> ICommand) list"
  written :: "('e \<times> response \<times> nat) list"

type_synonym 'ps generateImages_fn =
  "'ps \<Rightarrow> LocalPath \<Rightarrow> GfxDimension list \<Rightarrow> string list \<times> 'ps"

text \<open>\<^verbatim>\<open>mGfxProvider->generateImages(&mFaccess, path, sortedDimensions)\<close>: one invocation,
  logged, threading the provider's state.\<close>

definition call_generateImages ::
  "'ps generateImages_fn \<Rightarrow> LocalPath \<Rightarrow> GfxDimension list \<Rightarrow> ('ps, 'e) world
     \<Rightarrow> string list \<times> ('ps, 'e) world" where
  "call_generateImages gen path dims s =
     (let (images, ps') = gen (provider_state s) path dims
      in (images, s\<lparr>provider_state := ps',
                     provider_calls := provider_calls s @ [(path, dims)]\<rparr>))"

section \<open>\<^verbatim>\<open>std::sort\<close> and its contract\<close>

type_synonym std_sort = "(nat \<Rightarrow> nat \<Rightarrow> bool) \<Rightarrow> nat list \<Rightarrow> nat list"

text \<open>The comparator requirement of \<^verbatim>\<open>std::sort\<close>: a strict weak ordering.\<close>

definition strict_weak_ordering :: "(nat \<Rightarrow> nat \<Rightarrow> bool) \<Rightarrow> bool" where
  "strict_weak_ordering cmp \<longleftrightarrow>
     (\<forall>a. \<not> cmp a a) \<and>
     (\<forall>a b c. cmp a b \<longrightarrow> cmp b c \<longrightarrow> cmp a c) \<and>
     (\<forall>a b c. \<not> cmp a b \<longrightarrow> \<not> cmp b a \<longrightarrow> \<not> cmp b c \<longrightarrow> \<not> cmp c b
         \<longrightarrow> \<not> cmp a c \<and> \<not> cmp c a)"

text \<open>What \<^verbatim>\<open>std::sort\<close> guarantees for such a comparator: the range is permuted, and no
  later element compares less than an earlier one. The order of equivalent elements is
  left open.\<close>

definition std_sort_contract :: "std_sort \<Rightarrow> bool" where
  "std_sort_contract srt \<longleftrightarrow>
     (\<forall>cmp xs. strict_weak_ordering cmp \<longrightarrow>
        mset (srt cmp xs) = mset xs \<and> sorted_wrt (\<lambda>a b. \<not> cmp b a) (srt cmp xs))"

text \<open>One sorting function that meets the contract, used to run the model on concrete
  inputs.\<close>

fun insert_by :: "(nat \<Rightarrow> nat \<Rightarrow> bool) \<Rightarrow> nat \<Rightarrow> nat list \<Rightarrow> nat list" where
  "insert_by cmp x [] = [x]"
| "insert_by cmp x (y # ys) = (if cmp x y then x # y # ys else y # insert_by cmp x ys)"

fun insertion_sort :: std_sort where
  "insertion_sort cmp [] = []"
| "insertion_sort cmp (x # xs) = insert_by cmp x (insertion_sort cmp xs)"

section \<open>\<^verbatim>\<open>GfxProcessor\<close>\<close>

text \<open>\<^verbatim>\<open>std::iota(begin, end, 0)\<close> on a vector of \<open>n\<close> elements.\<close>

definition iota :: "nat \<Rightarrow> nat list" where
  "iota n = [0..<n]"

text \<open>
  The loop \<^verbatim>\<open>for (int i = 0; i < images.size(); ++i) outputImages[indices[i]] = std::move(images[i]);\<close>
  with both subscripts checked.
\<close>

function assign_back :: "nat \<Rightarrow> string list \<Rightarrow> nat list \<Rightarrow> string list \<Rightarrow> fault + string list" where
  "assign_back i images indices outputImages =
     (if i < length images then
        (if length indices \<le> i then Inl OutOfRange
         else if length outputImages \<le> indices ! i then Inl OutOfRange
         else assign_back (i + 1) images indices (outputImages[indices ! i := images ! i]))
      else Inr outputImages)"
  by pat_completeness auto
termination
  by (relation "measure (\<lambda>(i, images, indices, outputImages). length images - i)") auto

declare assign_back.simps [simp del]

text \<open>The comparator of the sort: \<^verbatim>\<open>dimensions[i1].w() > dimensions[i2].w()\<close>.\<close>

definition width_greater :: "GfxDimension list \<Rightarrow> nat \<Rightarrow> nat \<Rightarrow> bool" where
  "width_greater dimensions i1 i2 \<longleftrightarrow> mWidth (dimensions ! i1) > mWidth (dimensions ! i2)"

text \<open>The sorted index vector and the dimension vector rebuilt from it
  (\<^verbatim>\<open>std::transform\<close> with \<^verbatim>\<open>GfxDimension{ dimensions[i].w(), dimensions[i].h() }\<close>).\<close>

definition sorted_indices :: "std_sort \<Rightarrow> GfxDimension list \<Rightarrow> nat list" where
  "sorted_indices srt dimensions = srt (width_greater dimensions) (iota (length dimensions))"

definition sortedDimensions :: "GfxDimension list \<Rightarrow> nat list \<Rightarrow> GfxDimension list" where
  "sortedDimensions dimensions indices =
     map (\<lambda>i. \<lparr>mWidth = mWidth (dimensions ! i), mHeight = mHeight (dimensions ! i)\<rparr>) indices"

text \<open>
  \<^verbatim>\<open>GfxProcessor::process\<close>. The sort permutes the index vector in place, so every
  index it leaves there is one \<^verbatim>\<open>std::iota\<close> wrote; the theorems carry the sort's
  contract as a hypothesis.
\<close>

definition GfxProcessor_process ::
  "std_sort \<Rightarrow> 'ps generateImages_fn \<Rightarrow> GfxTask \<Rightarrow> ('ps, 'e) world
     \<Rightarrow> (fault + GfxTaskResult) \<times> ('ps, 'e) world" where
  "GfxProcessor_process srt gen task s =
     (let outputImages = replicate (length (Dimensions task)) [];
          path = fromPlatformEncodedAbsolute (Path task)
      in if Dimensions task = [] then
           (Inr \<lparr>ProcessStatus = ERR, OutputImages = outputImages\<rparr>, s)
         else
           (let dimensions = Dimensions task;
                indices = sorted_indices srt dimensions;
                (images, s') = call_generateImages gen path (sortedDimensions dimensions indices) s
            in (case assign_back 0 images indices outputImages of
                  Inl f \<Rightarrow> Inl f
                | Inr out \<Rightarrow> Inr \<lparr>ProcessStatus = SUCCESS, OutputImages = out\<rparr>,
                s')))"

text \<open>\<^verbatim>\<open>GfxProcessor::supportedformats\<close> and \<^verbatim>\<open>supportedvideoformats\<close>; the argument is
  what the provider returns, a nullable C string.\<close>

definition extraFormatsByWorker :: string where
  "extraFormatsByWorker = ''.tif.exr.pic.pct.tiff.pict''"

definition GfxProcessor_supportedformats :: "string option \<Rightarrow> string" where
  "GfxProcessor_supportedformats fmts =
     (case fmts of Some f \<Rightarrow> f @ extraFormatsByWorker | None \<Rightarrow> [])"

definition GfxProcessor_supportedvideoformats :: "string option \<Rightarrow> string" where
  "GfxProcessor_supportedvideoformats vfmts =
     (case vfmts of Some f \<Rightarrow> f | None \<Rightarrow> [])"

text \<open>The extensions of a dotted extension list, in the order they are listed: every
  extension starts at a \<open>.\<close> and runs to the next one. This reads the list the way the
  comment above \<^verbatim>\<open>supportedformats\<close> speaks of it; the scanning code itself
  (\<^verbatim>\<open>GfxProc::isgfx\<close>) is not part of the embedded sources.\<close>

fun extensions_of :: "string \<Rightarrow> string list" where
  "extensions_of [] = []"
| "extensions_of [c] = [[c]]"
| "extensions_of (c # d # cs) =
     (if d = CHR ''.'' then [c] # extensions_of (d # cs)
      else (case extensions_of (d # cs) of
              [] \<Rightarrow> [[c]]
            | e # es \<Rightarrow> (c # e) # es))"

text \<open>The position of the first listing of an extension, if it is listed.\<close>

fun position_of :: "string \<Rightarrow> string list \<Rightarrow> nat option" where
  "position_of e [] = None"
| "position_of e (x # xs) =
     (if x = e then Some 0 else map_option Suc (position_of e xs))"

section \<open>\<^verbatim>\<open>RequestProcessor\<close>\<close>

definition READ_TIMEOUT :: nat where
  "READ_TIMEOUT = 5000"

definition WRITE_TIMEOUT :: nat where
  "WRITE_TIMEOUT = 5000"

text \<open>The processor behind \<^verbatim>\<open>mGfxProcessor\<close> (an \<^verbatim>\<open>IGfxProcessor\<close>): its three virtual
  functions.\<close>

record ('ps, 'e) IGfxProcessor =
  process :: "GfxTask \<Rightarrow> ('ps, 'e) world \<Rightarrow> (fault + GfxTaskResult) \<times> ('ps, 'e) world"
  supportedformats :: string
  supportedvideoformats :: string

text \<open>The \<^verbatim>\<open>GfxProcessor\<close> over a provider: \<^verbatim>\<open>generateImages\<close> and the two nullable format
  lists of the provider.\<close>

definition GfxProcessor ::
  "std_sort \<Rightarrow> 'ps generateImages_fn \<Rightarrow> string option \<Rightarrow> string option
     \<Rightarrow> ('ps, 'e) IGfxProcessor" where
  "GfxProcessor srt gen fmts vfmts =
     \<lparr>process = GfxProcessor_process srt gen,
      supportedformats = GfxProcessor_supportedformats fmts,
      supportedvideoformats = GfxProcessor_supportedvideoformats vfmts\<rparr>"

text \<open>\<^verbatim>\<open>ProtocolWriter::writeCommand(&response, timeout)\<close> on an endpoint: the invocation is
  recorded.\<close>

definition writeCommand :: "'e \<Rightarrow> response \<Rightarrow> nat \<Rightarrow> ('ps, 'e) world \<Rightarrow> ('ps, 'e) world" where
  "writeCommand endpoint r timeout s = s\<lparr>written := written s @ [(endpoint, r, timeout)]\<rparr>"

definition processHello :: "'e \<Rightarrow> ('ps, 'e) world \<Rightarrow> ('ps, 'e) world" where
  "processHello endpoint s = writeCommand endpoint HelloResponse WRITE_TIMEOUT s"

definition processShutDown :: "'e \<Rightarrow> ('ps, 'e) world \<Rightarrow> ('ps, 'e) world" where
  "processShutDown endpoint s = writeCommand endpoint ShutDownResponse WRITE_TIMEOUT s"

text \<open>The response \<^verbatim>\<open>processGfx\<close> fills in from the processor's result.\<close>

definition gfx_response :: "GfxTaskResult \<Rightarrow> CommandNewGfxResponse" where
  "gfx_response result =
     \<lparr>ErrorCode = of_nat (status_value (ProcessStatus result)),
      ErrorText = (if ProcessStatus result = SUCCESS then ''OK'' else ''ERROR''),
      Images = OutputImages result\<rparr>"

definition processGfx ::
  "('ps, 'e) IGfxProcessor \<Rightarrow> 'e \<Rightarrow> GfxTask \<Rightarrow> ('ps, 'e) world
     \<Rightarrow> fault option \<times> ('ps, 'e) world" where
  "processGfx mGfxProcessor endpoint task s =
     (case process mGfxProcessor task s of
        (Inl f, s') \<Rightarrow> (Some f, s')
      | (Inr result, s') \<Rightarrow>
          (None, writeCommand endpoint (NewGfxResponse (gfx_response result)) WRITE_TIMEOUT s'))"

definition processSupportFormats ::
  "('ps, 'e) IGfxProcessor \<Rightarrow> 'e \<Rightarrow> ('ps, 'e) world \<Rightarrow> ('ps, 'e) world" where
  "processSupportFormats mGfxProcessor endpoint s =
     writeCommand endpoint
       (SupportFormatsResponse
          \<lparr>formats = supportedformats mGfxProcessor,
           videoformats = supportedvideoformats mGfxProcessor\<rparr>)
       WRITE_TIMEOUT s"

text \<open>The closure pushed to the pool, run on a captured endpoint and command: the
  \<^verbatim>\<open>switch\<close> on the command's type.\<close>

fun run_task ::
  "('ps, 'e) IGfxProcessor \<Rightarrow> 'e \<times> ICommand \<Rightarrow> ('ps, 'e) world
     \<Rightarrow> fault option \<times> ('ps, 'e) world" where
  "run_task mGfxProcessor (endpoint, CommandHello) s = (None, processHello endpoint s)"
| "run_task mGfxProcessor (endpoint, CommandShutDown) s = (None, processShutDown endpoint s)"
| "run_task mGfxProcessor (endpoint, CommandNewGfx task) s = processGfx mGfxProcessor endpoint task s"
| "run_task mGfxProcessor (endpoint, CommandSupportFormats) s =
     (None, processSupportFormats mGfxProcessor endpoint s)"

text \<open>\<^verbatim>\<open>mThreadPool.push\<close>: the closure joins the tasks handed to the pool.\<close>

definition push :: "'e \<times> ICommand \<Rightarrow> ('ps, 'e) world \<Rightarrow> ('ps, 'e) world" where
  "push task s = s\<lparr>pool_tasks := pool_tasks s @ [task]\<rparr>"

text \<open>\<^verbatim>\<open>RequestProcessor::process\<close>. The reader is a parameter: \<open>readCommand endpoint timeout\<close>
  is the decoded command, or \<open>None\<close> for the null pointer the reader returns when it
  cannot deliver one.\<close>

definition RequestProcessor_process ::
  "('e \<Rightarrow> nat \<Rightarrow> ICommand option) \<Rightarrow> 'e \<Rightarrow> ('ps, 'e) world \<Rightarrow> bool \<times> ('ps, 'e) world" where
  "RequestProcessor_process readCommand endpoint s =
     (let stopRunning = False
      in case readCommand endpoint READ_TIMEOUT of
           None \<Rightarrow> (stopRunning, s)
         | Some command \<Rightarrow>
             (let stopRunning = (type_of_command command = SHUTDOWN)
              in (stopRunning, push (endpoint, command) s)))"

text \<open>A provider is deterministic when the images it returns depend on the path and the
  dimensions it is given only, not on the state it is called in.\<close>

definition deterministic :: "'ps generateImages_fn \<Rightarrow> bool" where
  "deterministic gen \<longleftrightarrow>
     (\<forall>ps ps' path dims. fst (gen ps path dims) = fst (gen ps' path dims))"

section \<open>Concrete inputs\<close>

definition world0 :: "(unit, nat) world" where
  "world0 = \<lparr>provider_state = (), provider_calls = [], pool_tasks = [], written = []\<rparr>"

definition dim :: "int \<Rightarrow> int \<Rightarrow> GfxDimension" where
  "dim a b = \<lparr>mWidth = a, mHeight = b\<rparr>"

text \<open>A provider that renders every requested size on its own, to the text \<open>WxH\<close> with
  both numbers taken as single characters.\<close>

definition render :: "GfxDimension \<Rightarrow> string" where
  "render d = [char_of (mWidth d), CHR ''x'', char_of (mHeight d)]"

definition each_provider :: "unit generateImages_fn" where
  "each_provider ps path dims = (map render dims, ps)"

text \<open>A provider that returns two images whatever it is asked for, and one that returns
  none.\<close>

definition two_provider :: "unit generateImages_fn" where
  "two_provider ps path dims = ([''a'', ''b''], ps)"


definition dims3 :: "GfxDimension list" where
  "dims3 = [dim 50 50, dim 100 100, dim 75 75]"

definition task3 :: GfxTask where
  "task3 = \<lparr>Path = ''/a.jpg'', Dimensions = dims3\<rparr>"

text \<open>A reader that cannot deliver a command, and one that delivers a shutdown.\<close>

definition failing_reader :: "nat \<Rightarrow> nat \<Rightarrow> ICommand option" where
  "failing_reader endpoint timeout = None"

definition shutdown_reader :: "nat \<Rightarrow> nat \<Rightarrow> ICommand option" where
  "shutdown_reader endpoint timeout = Some CommandShutDown"

section \<open>Facts about the sort\<close>

lemma mset_insert_by: "mset (insert_by cmp x xs) = add_mset x (mset xs)"
  by (induction xs) auto

lemma mset_insertion_sort: "mset (insertion_sort cmp xs) = mset xs"
  by (induction xs) (auto simp: mset_insert_by)

lemma set_insert_by: "set (insert_by cmp x xs) = insert x (set xs)"
  by (induction xs) auto

lemma sorted_insert_by:
  assumes irr: "\<And>a. \<not> cmp a a" and tr: "\<And>a b c. cmp a b \<Longrightarrow> cmp b c \<Longrightarrow> cmp a c"
    and srt: "sorted_wrt (\<lambda>a b. \<not> cmp b a) xs"
  shows "sorted_wrt (\<lambda>a b. \<not> cmp b a) (insert_by cmp x xs)"
  using srt
proof (induction xs)
  case Nil
  then show ?case by simp
next
  case (Cons y ys)
  show ?case
  proof (cases "cmp x y")
    case True
    have "\<not> cmp y x" using True irr tr by blast
    moreover have "\<not> cmp z x" if "z \<in> set ys" for z
    proof
      assume "cmp z x"
      then have "cmp z y" using True tr by blast
      moreover have "\<not> cmp z y" using Cons.prems that by simp
      ultimately show False by simp
    qed
    ultimately show ?thesis using True Cons.prems by simp
  next
    case False
    then show ?thesis using Cons by (auto simp: set_insert_by)
  qed
qed

lemma sorted_insertion_sort:
  assumes "\<And>a. \<not> cmp a a" and "\<And>a b c. cmp a b \<Longrightarrow> cmp b c \<Longrightarrow> cmp a c"
  shows "sorted_wrt (\<lambda>a b. \<not> cmp b a) (insertion_sort cmp xs)"
  by (induction xs) (simp_all add: sorted_insert_by assms)

lemma insertion_sort_contract: "std_sort_contract insertion_sort"
  unfolding std_sort_contract_def strict_weak_ordering_def
  by (intro allI impI conjI mset_insertion_sort sorted_insertion_sort) blast+

lemma strict_weak_ordering_width: "strict_weak_ordering (width_greater dimensions)"
  unfolding strict_weak_ordering_def width_greater_def by auto

lemma sortedDimensions_nth: "sortedDimensions dimensions indices = map (\<lambda>i. dimensions ! i) indices"
  by (simp add: sortedDimensions_def)

lemma sorted_indices_mset:
  assumes "std_sort_contract srt"
  shows "mset (sorted_indices srt dimensions) = mset [0..<length dimensions]"
  using assms strict_weak_ordering_width[of dimensions]
  by (simp add: std_sort_contract_def sorted_indices_def iota_def)

lemma sorted_indices_length:
  assumes "std_sort_contract srt"
  shows "length (sorted_indices srt dimensions) = length dimensions"
  using sorted_indices_mset[OF assms, of dimensions] by (metis length_upt mset_eq_length minus_nat.diff_0)

lemma sorted_indices_set:
  assumes "std_sort_contract srt"
  shows "set (sorted_indices srt dimensions) = {0..<length dimensions}"
  using sorted_indices_mset[OF assms, of dimensions] by (metis mset_eq_setD set_upt)

lemma sorted_indices_distinct:
  assumes "std_sort_contract srt"
  shows "distinct (sorted_indices srt dimensions)"
  using sorted_indices_mset[OF assms, of dimensions] by (metis distinct_upt mset_eq_imp_distinct_iff)

lemma sorted_indices_nth_less:
  assumes "std_sort_contract srt" "k < length dimensions"
  shows "sorted_indices srt dimensions ! k < length dimensions"
proof -
  have "sorted_indices srt dimensions ! k \<in> set (sorted_indices srt dimensions)"
    using assms by (simp add: sorted_indices_length)
  then show ?thesis by (simp add: sorted_indices_set[OF assms(1)])
qed

lemma sorted_indices_sorted:
  assumes "std_sort_contract srt"
  shows "sorted_wrt (\<lambda>a b. \<not> width_greater dimensions b a) (sorted_indices srt dimensions)"
  using assms strict_weak_ordering_width[of dimensions]
  by (simp add: std_sort_contract_def sorted_indices_def)

lemma sortedDimensions_mset:
  assumes "std_sort_contract srt"
  shows "mset (sortedDimensions dimensions (sorted_indices srt dimensions)) = mset dimensions"
proof -
  have "mset (map (\<lambda>i. dimensions ! i) (sorted_indices srt dimensions))
          = image_mset (\<lambda>i. dimensions ! i) (mset [0..<length dimensions])"
    by (simp add: sorted_indices_mset[OF assms] del: mset_upt)
  also have "\<dots> = mset (map (\<lambda>i. dimensions ! i) [0..<length dimensions])"
    by (simp del: mset_upt)
  also have "\<dots> = mset dimensions" by (simp only: map_nth)
  finally show ?thesis by (simp add: sortedDimensions_nth)
qed

lemma sortedDimensions_descending:
  assumes "std_sort_contract srt"
  shows "sorted_wrt (\<lambda>a b. mWidth a \<ge> mWidth b)
           (sortedDimensions dimensions (sorted_indices srt dimensions))"
  using sorted_indices_sorted[OF assms, of dimensions]
  by (simp add: sortedDimensions_nth sorted_wrt_map width_greater_def not_less)


section \<open>Facts about the scatter loop\<close>

lemma assign_back_ok:
  assumes "length images \<le> length indices"
    and "\<forall>k<length images. indices ! k < length out"
    and "distinct (take (length images) indices)"
  shows "\<exists>out'. assign_back i images indices out = Inr out' \<and> length out' = length out \<and>
           (\<forall>k. i \<le> k \<and> k < length images \<longrightarrow> out' ! (indices ! k) = images ! k) \<and>
           (\<forall>j. j \<notin> (\<lambda>k. indices ! k) ` {i..<length images} \<longrightarrow> out' ! j = out ! j)"
  using assms
proof (induction i images indices out rule: assign_back.induct)
  case (1 i images indices out)
  show ?case
  proof (cases "i < length images")
    case False
    then show ?thesis by (auto simp add: assign_back.simps)
  next
    case True
    let ?out = "out[indices ! i := images ! i]"
    have b1: "\<not> length indices \<le> i" using True "1.prems"(1) by simp
    have b2: "\<not> length out \<le> indices ! i" using True "1.prems"(2) by (simp add: not_le)
    have "\<forall>k<length images. indices ! k < length ?out" using "1.prems"(2) by simp
    from "1.IH"[OF True b1 b2 "1.prems"(1) this "1.prems"(3)]
    obtain out' where r: "assign_back (i + 1) images indices ?out = Inr out'"
      and l: "length out' = length ?out"
      and a: "\<forall>k. i + 1 \<le> k \<and> k < length images \<longrightarrow> out' ! (indices ! k) = images ! k"
      and b: "\<forall>j. j \<notin> (\<lambda>k. indices ! k) ` {i + 1..<length images} \<longrightarrow> out' ! j = ?out ! j"
      by blast
    have eq: "assign_back i images indices out = Inr out'"
      using True b1 b2 r by (subst assign_back.simps) simp
    have notin: "indices ! i \<notin> (\<lambda>k. indices ! k) ` {i + 1..<length images}"
    proof
      assume "indices ! i \<in> (\<lambda>k. indices ! k) ` {i + 1..<length images}"
      then obtain k where k: "i + 1 \<le> k" "k < length images" "indices ! k = indices ! i" by auto
      have "take (length images) indices ! k = take (length images) indices ! i"
        using k True by simp
      moreover have "k < length (take (length images) indices)" "i < length (take (length images) indices)"
        using k True "1.prems"(1) by simp_all
      ultimately have "k = i" using "1.prems"(3) nth_eq_iff_index_eq by blast
      then show False using k by simp
    qed
    have here: "out' ! (indices ! i) = images ! i"
      using b notin b2 by (simp add: not_le)
    have a': "\<forall>k. i \<le> k \<and> k < length images \<longrightarrow> out' ! (indices ! k) = images ! k"
    proof (intro allI impI)
      fix k assume "i \<le> k \<and> k < length images"
      then show "out' ! (indices ! k) = images ! k"
        using a here by (cases "k = i") auto
    qed
    have b': "\<forall>j. j \<notin> (\<lambda>k. indices ! k) ` {i..<length images} \<longrightarrow> out' ! j = out ! j"
    proof (intro allI impI)
      fix j assume j: "j \<notin> (\<lambda>k. indices ! k) ` {i..<length images}"
      then have "j \<noteq> indices ! i" using True by auto
      moreover have "j \<notin> (\<lambda>k. indices ! k) ` {i + 1..<length images}" using j by auto
      ultimately show "out' ! j = out ! j" using b by simp
    qed
    show ?thesis using eq l a' b' by simp
  qed
qed

lemma assign_back_fault:
  assumes "length indices < length images" "i \<le> length indices"
  shows "assign_back i images indices out = Inl OutOfRange"
  using assms
proof (induction i images indices out rule: assign_back.induct)
  case (1 i images indices out)
  then show ?case by (subst assign_back.simps) auto
qed

section \<open>Facts about \<^verbatim>\<open>GfxProcessor::process\<close>\<close>

lemma process_empty:
  assumes "Dimensions task = []"
  shows "GfxProcessor_process srt gen task s = (Inr \<lparr>ProcessStatus = ERR, OutputImages = []\<rparr>, s)"
  using assms by (simp add: GfxProcessor_process_def)

lemma process_nonempty:
  assumes "Dimensions task \<noteq> []"
    and "gen (provider_state s) (fromPlatformEncodedAbsolute (Path task))
           (sortedDimensions (Dimensions task) (sorted_indices srt (Dimensions task))) = (images, ps')"
  shows "GfxProcessor_process srt gen task s =
     ((case assign_back 0 images (sorted_indices srt (Dimensions task))
              (replicate (length (Dimensions task)) []) of
         Inl f \<Rightarrow> Inl f
       | Inr out \<Rightarrow> Inr \<lparr>ProcessStatus = SUCCESS, OutputImages = out\<rparr>),
      s\<lparr>provider_state := ps',
        provider_calls := provider_calls s @
          [(fromPlatformEncodedAbsolute (Path task),
            sortedDimensions (Dimensions task) (sorted_indices srt (Dimensions task)))]\<rparr>)"
  using assms by (simp add: GfxProcessor_process_def call_generateImages_def Let_def)

lemma scatter_all:
  assumes c: "std_sort_contract srt"
    and len: "length images \<le> length dimensions"
  shows "\<exists>out. assign_back 0 images (sorted_indices srt dimensions)
                  (replicate (length dimensions) []) = Inr out \<and>
               length out = length dimensions \<and>
               (\<forall>k<length images. out ! (sorted_indices srt dimensions ! k) = images ! k) \<and>
               (\<forall>k<length dimensions. length images \<le> k \<longrightarrow>
                    out ! (sorted_indices srt dimensions ! k) = [])"
proof -
  let ?idx = "sorted_indices srt dimensions"
  let ?n = "length dimensions"
  have l: "length ?idx = ?n" by (rule sorted_indices_length[OF c])
  have d: "distinct ?idx" by (rule sorted_indices_distinct[OF c])
  have a1: "length images \<le> length ?idx" using len l by simp
  have a2: "\<forall>k<length images. ?idx ! k < length (replicate ?n ([]::string))"
    using len sorted_indices_nth_less[OF c] by simp
  have a3: "distinct (take (length images) ?idx)" using d by simp
  from assign_back_ok[OF a1 a2 a3, of 0]
  obtain out where r: "assign_back 0 images ?idx (replicate ?n []) = Inr out"
    and lo: "length out = ?n"
    and f: "\<forall>k. k < length images \<longrightarrow> out ! (?idx ! k) = images ! k"
    and u: "\<forall>j. j \<notin> (\<lambda>k. ?idx ! k) ` {0..<length images} \<longrightarrow> out ! j = replicate ?n [] ! j"
    by auto
  have "out ! (?idx ! k) = []" if k: "k < ?n" "length images \<le> k" for k
  proof -
    have "?idx ! k \<notin> (\<lambda>k. ?idx ! k) ` {0..<length images}"
    proof
      assume "?idx ! k \<in> (\<lambda>k. ?idx ! k) ` {0..<length images}"
      then obtain k' where k': "k' < length images" "?idx ! k' = ?idx ! k" by auto
      then have "k' = k" using d l k len nth_eq_iff_index_eq[OF d, of k' k] by simp
      then show False using k k' by simp
    qed
    then have "out ! (?idx ! k) = replicate ?n [] ! (?idx ! k)" using u by blast
    then show ?thesis using sorted_indices_nth_less[OF c k(1)] by simp
  qed
  then show ?thesis using r lo f by blast
qed

lemma sorted_indices_inverse:
  assumes c: "std_sort_contract srt" and i: "i < length dimensions"
  shows "\<exists>k<length dimensions. sorted_indices srt dimensions ! k = i"
proof -
  have "i \<in> set (sorted_indices srt dimensions)"
    using i by (simp add: sorted_indices_set[OF c])
  then show ?thesis
    by (metis in_set_conv_nth sorted_indices_length[OF c])
qed

section \<open>Claims about \<^verbatim>\<open>GfxProcessor::process\<close>\<close>

text \<open>
  Claim C1. For a task with a non-empty dimensions list of length \<open>N\<close> and a provider
  that returns one image per supplied dimension, \<^verbatim>\<open>process\<close> returns a result whose
  images list has length \<open>N\<close>, and the image at index \<open>i\<close> is the one the provider
  returned at the position \<open>k\<close> where \<open>dimensions[i]\<close> was supplied to it, whatever order
  the sort chose. For a provider that renders each supplied dimension by a function
  \<open>f\<close>, the result is \<open>map f dimensions\<close>.
\<close>

theorem C1_images_in_request_order:
  assumes c: "std_sort_contract srt"
    and ne: "Dimensions task \<noteq> []"
    and g: "gen (provider_state s) (fromPlatformEncodedAbsolute (Path task))
           (sortedDimensions (Dimensions task) (sorted_indices srt (Dimensions task))) = (images, ps')"
    and len: "length images = length (Dimensions task)"
  shows "\<exists>r. fst (GfxProcessor_process srt gen task s) = Inr r \<and>
           length (OutputImages r) = length (Dimensions task) \<and>
           (\<forall>i<length (Dimensions task). \<exists>k<length (Dimensions task).
               sorted_indices srt (Dimensions task) ! k = i \<and>
               sortedDimensions (Dimensions task) (sorted_indices srt (Dimensions task)) ! k
                 = Dimensions task ! i \<and>
               OutputImages r ! i = images ! k) \<and>
           (\<forall>f. images = map f (sortedDimensions (Dimensions task) (sorted_indices srt (Dimensions task)))
               \<longrightarrow> OutputImages r = map f (Dimensions task))"
proof -
  let ?dims = "Dimensions task"
  let ?idx = "sorted_indices srt ?dims"
  let ?sd = "sortedDimensions ?dims ?idx"
  have l: "length ?idx = length ?dims" by (rule sorted_indices_length[OF c])
  from scatter_all[OF c, of images ?dims] len
  obtain out where r: "assign_back 0 images ?idx (replicate (length ?dims) []) = Inr out"
    and lo: "length out = length ?dims"
    and f: "\<forall>k<length ?dims. out ! (?idx ! k) = images ! k"
    by auto
  have res: "fst (GfxProcessor_process srt gen task s) = Inr \<lparr>ProcessStatus = SUCCESS, OutputImages = out\<rparr>"
    using process_nonempty[where task=task and gen=gen and s=s and srt=srt, OF ne g] r by simp
  have pos: "\<exists>k<length ?dims. ?idx ! k = i \<and> ?sd ! k = ?dims ! i \<and> out ! i = images ! k"
    if i: "i < length ?dims" for i
  proof -
    from sorted_indices_inverse[OF c i] obtain k where k: "k < length ?dims" "?idx ! k = i" by blast
    have "?sd ! k = ?dims ! i" using k l by (simp add: sortedDimensions_nth)
    moreover have "out ! i = images ! k" using f k by auto
    ultimately show ?thesis using k by blast
  qed
  have el: "out = map f ?dims" if im: "images = map f ?sd" for f
  proof (rule nth_equalityI)
    show "length out = length (map f ?dims)" using lo by simp
  next
    fix i assume "i < length out"
    then have i: "i < length ?dims" using lo by simp
    from pos[OF i] obtain k where k: "k < length ?dims" "?sd ! k = ?dims ! i" "out ! i = images ! k"
      by blast
    have "images ! k = f (?sd ! k)" using im k(1) l by (simp add: sortedDimensions_nth)
    then show "out ! i = map f ?dims ! i" using k i by simp
  qed
  show ?thesis using res lo pos el by simp
qed

theorem C1_images_in_request_order_witness:
  "\<exists>r. fst (GfxProcessor_process insertion_sort each_provider task3 world0) = Inr r \<and>
       length (OutputImages r) = 3 \<and>
       OutputImages r = [render (dim 50 50), render (dim 100 100), render (dim 75 75)]"
proof -
  let ?sd = "sortedDimensions (Dimensions task3) (sorted_indices insertion_sort (Dimensions task3))"
  have ne: "Dimensions task3 \<noteq> []" by (simp add: task3_def dims3_def)
  have g: "each_provider (provider_state world0) (fromPlatformEncodedAbsolute (Path task3)) ?sd
             = (map render ?sd, ())"
    by (simp add: each_provider_def)
  have len: "length (map render ?sd) = length (Dimensions task3)"
    by (simp add: sortedDimensions_nth sorted_indices_length[OF insertion_sort_contract])
  from C1_images_in_request_order[where gen = each_provider and s = world0,
      OF insertion_sort_contract ne g len]
  obtain r where r: "fst (GfxProcessor_process insertion_sort each_provider task3 world0) = Inr r"
    and "length (OutputImages r) = length (Dimensions task3)"
    and "\<forall>f. map render ?sd = map f ?sd \<longrightarrow> OutputImages r = map f (Dimensions task3)"
    by blast
  then have "OutputImages r = map render (Dimensions task3)" by blast
  then show ?thesis using r by (simp add: task3_def dims3_def)
qed

lemma length3: "length xs = Suc (Suc (Suc 0)) \<Longrightarrow> \<exists>x y z. xs = [x, y, z]"
  by (metis length_0_conv length_Suc_conv)

lemma widest_first_unique:
  assumes mem: "x \<in> {0, 1, 2::nat}" "y \<in> {0, 1, 2::nat}" "z \<in> {0, 1, 2::nat}"
   and ord: "\<not> width_greater [dim 50 50, dim 100 100, dim 75 75] y x"
     "\<not> width_greater [dim 50 50, dim 100 100, dim 75 75] z x"
     "\<not> width_greater [dim 50 50, dim 100 100, dim 75 75] z y"
   and dd: "x \<noteq> y" "x \<noteq> z" "y \<noteq> z"
  shows "x = 1 \<and> y = 2 \<and> z = 0"
  using mem ord dd unfolding width_greater_def dim_def by (elim insertE emptyE; simp)

lemma sorted_indices_dims3:
  assumes c: "std_sort_contract srt"
  shows "sorted_indices srt [dim 50 50, dim 100 100, dim 75 75] = [1, 2, 0]"
proof -
  define dims where "dims = [dim 50 50, dim 100 100, dim 75 75]"
  define idx where "idx = sorted_indices srt dims"
  have ld: "length dims = Suc (Suc (Suc 0))" by (simp add: dims_def)
  have "length idx = Suc (Suc (Suc 0))"
    unfolding idx_def using sorted_indices_length[OF c, of dims] ld by simp
  then obtain x y z where xyz: "idx = [x, y, z]"
    using length3 by blast
  have lt: "i < 3" if "i \<in> set idx" for i
    using that sorted_indices_set[OF c, of dims] ld unfolding idx_def by simp
  have "distinct idx" unfolding idx_def by (rule sorted_indices_distinct[OF c])
  then have dd: "x \<noteq> y" "x \<noteq> z" "y \<noteq> z" unfolding xyz by simp_all
  have "sorted_wrt (\<lambda>a b. \<not> width_greater dims b a) idx"
    unfolding idx_def by (rule sorted_indices_sorted[OF c])
  then have ord: "\<not> width_greater dims y x" "\<not> width_greater dims z x" "\<not> width_greater dims z y"
    unfolding xyz by simp_all
  have "x < 3" "y < 3" "z < 3" using lt unfolding xyz by simp_all
  then have mem: "x \<in> {0, 1, 2}" "y \<in> {0, 1, 2}" "z \<in> {0, 1, 2}" by auto
  have "x = 1 \<and> y = 2 \<and> z = 0"
    by (rule widest_first_unique[OF mem ord[unfolded dims_def] dd])
  then show ?thesis using xyz unfolding idx_def dims_def by simp
qed

text \<open>
  Claim C2. For a task with a non-empty dimensions list, \<^verbatim>\<open>process\<close> invokes the provider
  exactly once (the log of invocations grows by one entry), with the dimensions permuted
  into descending order of width. For the dimensions \<open>[(50,50), (100,100), (75,75)]\<close> the
  provider is invoked with \<open>[(100,100), (75,75), (50,50)]\<close>, and when it returns the
  images \<open>a, b, c\<close> for these, the result lists them as \<open>c, a, b\<close>: the image for
  \<open>(50,50)\<close>, then the one for \<open>(100,100)\<close>, then the one for \<open>(75,75)\<close>.
\<close>

theorem C2_provider_called_once_widest_first:
  assumes c: "std_sort_contract srt"
  shows "(Dimensions task \<noteq> [] \<longrightarrow>
           (\<exists>sd. provider_calls (snd (GfxProcessor_process srt gen task s))
                    = provider_calls s @ [(fromPlatformEncodedAbsolute (Path task), sd)] \<and>
                 mset sd = mset (Dimensions task) \<and>
                 sorted_wrt (\<lambda>a b. mWidth a \<ge> mWidth b) sd)) \<and>
         (Dimensions task = [dim 50 50, dim 100 100, dim 75 75] \<longrightarrow>
            provider_calls (snd (GfxProcessor_process srt gen task s))
              = provider_calls s @ [(fromPlatformEncodedAbsolute (Path task),
                                     [dim 100 100, dim 75 75, dim 50 50])] \<and>
            (\<forall>a b c' ps'.
               gen (provider_state s) (fromPlatformEncodedAbsolute (Path task))
                 [dim 100 100, dim 75 75, dim 50 50] = ([a, b, c'], ps')
               \<longrightarrow> fst (GfxProcessor_process srt gen task s)
                     = Inr \<lparr>ProcessStatus = SUCCESS, OutputImages = [c', a, b]\<rparr>))"
proof (intro conjI impI allI)
  let ?sd = "sortedDimensions (Dimensions task) (sorted_indices srt (Dimensions task))"
  assume ne: "Dimensions task \<noteq> []"
  obtain images ps' where g: "gen (provider_state s) (fromPlatformEncodedAbsolute (Path task)) ?sd
                               = (images, ps')"
    by (cases "gen (provider_state s) (fromPlatformEncodedAbsolute (Path task)) ?sd")
  have "provider_calls (snd (GfxProcessor_process srt gen task s))
          = provider_calls s @ [(fromPlatformEncodedAbsolute (Path task), ?sd)]"
    using process_nonempty[where task=task and gen=gen and s=s and srt=srt, OF ne g] by simp
  then show "\<exists>sd. provider_calls (snd (GfxProcessor_process srt gen task s))
                    = provider_calls s @ [(fromPlatformEncodedAbsolute (Path task), sd)] \<and>
                 mset sd = mset (Dimensions task) \<and>
                 sorted_wrt (\<lambda>a b. mWidth a \<ge> mWidth b) sd"
    using sortedDimensions_mset[OF c] sortedDimensions_descending[OF c] by blast
next
  let ?sd = "sortedDimensions (Dimensions task) (sorted_indices srt (Dimensions task))"
  assume d3: "Dimensions task = [dim 50 50, dim 100 100, dim 75 75]"
  then have ne: "Dimensions task \<noteq> []" by simp
  have sd: "?sd = [dim 100 100, dim 75 75, dim 50 50]"
    by (simp add: d3 sorted_indices_dims3[OF c] sortedDimensions_nth)
  obtain images ps' where g: "gen (provider_state s) (fromPlatformEncodedAbsolute (Path task)) ?sd
                               = (images, ps')"
    by (cases "gen (provider_state s) (fromPlatformEncodedAbsolute (Path task)) ?sd")
  show "provider_calls (snd (GfxProcessor_process srt gen task s))
          = provider_calls s @ [(fromPlatformEncodedAbsolute (Path task),
                                 [dim 100 100, dim 75 75, dim 50 50])]"
    using process_nonempty[where task=task and gen=gen and s=s and srt=srt, OF ne g] sd by simp
next
  fix a b c' ps'
  let ?sd = "sortedDimensions (Dimensions task) (sorted_indices srt (Dimensions task))"
  assume d3: "Dimensions task = [dim 50 50, dim 100 100, dim 75 75]"
    and g3: "gen (provider_state s) (fromPlatformEncodedAbsolute (Path task))
                 [dim 100 100, dim 75 75, dim 50 50] = ([a, b, c'], ps')"
  have ne: "Dimensions task \<noteq> []" using d3 by simp
  have sd: "?sd = [dim 100 100, dim 75 75, dim 50 50]"
    by (simp add: d3 sorted_indices_dims3[OF c] sortedDimensions_nth)
  have g: "gen (provider_state s) (fromPlatformEncodedAbsolute (Path task)) ?sd = ([a, b, c'], ps')"
    using g3 sd by simp
  have sc: "assign_back 0 [a, b, c'] [1, 2, 0] [[], [], []] = Inr [c', a, b]"
    by (simp add: assign_back.simps)
  show "fst (GfxProcessor_process srt gen task s)
          = Inr \<lparr>ProcessStatus = SUCCESS, OutputImages = [c', a, b]\<rparr>"
    using process_nonempty[where task=task and gen=gen and s=s and srt=srt, OF ne g] sc
    by (simp add: d3 sorted_indices_dims3[OF c])
qed

theorem C2_provider_called_once_widest_first_witness:
  "provider_calls (snd (GfxProcessor_process insertion_sort each_provider task3 world0))
     = [(fromPlatformEncodedAbsolute ''/a.jpg'', [dim 100 100, dim 75 75, dim 50 50])] \<and>
   fst (GfxProcessor_process insertion_sort each_provider task3 world0)
     = Inr \<lparr>ProcessStatus = SUCCESS,
            OutputImages = [render (dim 50 50), render (dim 100 100), render (dim 75 75)]\<rparr>"
proof -
  have d3: "Dimensions task3 = [dim 50 50, dim 100 100, dim 75 75]"
    by (simp add: task3_def dims3_def)
  have g: "each_provider (provider_state world0) (fromPlatformEncodedAbsolute (Path task3))
             [dim 100 100, dim 75 75, dim 50 50]
           = ([render (dim 100 100), render (dim 75 75), render (dim 50 50)], ())"
    by (simp add: each_provider_def)
  show ?thesis
    using C2_provider_called_once_widest_first[OF insertion_sort_contract,
        of task3 each_provider world0] d3 g
    by (simp add: task3_def world0_def)
qed

text \<open>
  Claim C3. For a task whose dimensions list is empty, \<^verbatim>\<open>process\<close> returns the status
  \<open>ERR\<close> with an empty images list, and the state is the one it started in: no
  invocation of the provider is logged.
\<close>

theorem C3_empty_dimensions_is_ERR:
  assumes "Dimensions task = []"
  shows "GfxProcessor_process srt gen task s
           = (Inr \<lparr>ProcessStatus = ERR, OutputImages = []\<rparr>, s) \<and>
         provider_calls (snd (GfxProcessor_process srt gen task s)) = provider_calls s"
  using assms by (simp add: GfxProcessor_process_def)

theorem C3_empty_dimensions_is_ERR_witness:
  "GfxProcessor_process insertion_sort each_provider \<lparr>Path = ''/a.jpg'', Dimensions = []\<rparr> world0
     = (Inr \<lparr>ProcessStatus = ERR, OutputImages = []\<rparr>, world0) \<and>
   provider_calls (snd (GfxProcessor_process insertion_sort each_provider
                          \<lparr>Path = ''/a.jpg'', Dimensions = []\<rparr> world0)) = []"
  using C3_empty_dimensions_is_ERR[of "\<lparr>Path = ''/a.jpg'', Dimensions = []\<rparr>"
      insertion_sort each_provider world0]
  by (simp add: world0_def)

lemma process_result_independent_of_state:
  assumes "deterministic gen"
  shows "fst (GfxProcessor_process srt gen task s) = fst (GfxProcessor_process srt gen task s')"
proof (cases "Dimensions task = []")
  case True
  then show ?thesis by (simp add: process_empty)
next
  case False
  let ?path = "fromPlatformEncodedAbsolute (Path task)"
  let ?sd = "sortedDimensions (Dimensions task) (sorted_indices srt (Dimensions task))"
  obtain images ps1 where g: "gen (provider_state s) ?path ?sd = (images, ps1)"
    by (cases "gen (provider_state s) ?path ?sd")
  obtain images' ps2 where g': "gen (provider_state s') ?path ?sd = (images', ps2)"
    by (cases "gen (provider_state s') ?path ?sd")
  have "fst (gen (provider_state s) ?path ?sd) = fst (gen (provider_state s') ?path ?sd)"
    using assms unfolding deterministic_def by blast
  then have "images = images'" using g g' by simp
  then show ?thesis
    using process_nonempty[where task=task and gen=gen and s=s and srt=srt, OF False g]
      process_nonempty[where task=task and gen=gen and s=s' and srt=srt, OF False g']
    by simp
qed



lemma process_short_provider:
  assumes c: "std_sort_contract srt"
    and ne: "Dimensions task \<noteq> []"
    and g: "gen (provider_state s) (fromPlatformEncodedAbsolute (Path task))
              (sortedDimensions (Dimensions task) (sorted_indices srt (Dimensions task)))
              = (images, ps')"
    and len: "length images \<le> length (Dimensions task)"
  shows "\<exists>out. fst (GfxProcessor_process srt gen task s)
                     = Inr \<lparr>ProcessStatus = SUCCESS, OutputImages = out\<rparr> \<and>
                   length out = length (Dimensions task) \<and>
                   (\<forall>k<length images.
                      out ! (sorted_indices srt (Dimensions task) ! k) = images ! k) \<and>
                   (\<forall>k<length (Dimensions task). length images \<le> k \<longrightarrow>
                      out ! (sorted_indices srt (Dimensions task) ! k) = [])"
proof -
  from scatter_all[OF c len]
  obtain out where o: "assign_back 0 images (sorted_indices srt (Dimensions task))
                  (replicate (length (Dimensions task)) []) = Inr out"
    and rest: "length out = length (Dimensions task)"
      "\<forall>k<length images. out ! (sorted_indices srt (Dimensions task) ! k) = images ! k"
      "\<forall>k<length (Dimensions task). length images \<le> k \<longrightarrow>
                    out ! (sorted_indices srt (Dimensions task) ! k) = []"
    by blast
  have "fst (GfxProcessor_process srt gen task s) = Inr \<lparr>ProcessStatus = SUCCESS, OutputImages = out\<rparr>"
    using process_nonempty[where task=task and gen=gen and s=s and srt=srt, OF ne g] o by simp
  then show ?thesis using rest by blast
qed



text \<open>
  Claim C9, as stated, fails: a provider that returns two images whatever it is asked
  for is deterministic, and for one requested dimension neither of two successive
  invocations of \<^verbatim>\<open>process\<close> yields a status and a list of images: each one leaves the
  range of the one-element index vector in the second pass of the scatter loop.
\<close>

theorem C9_no_result_counterexample:
  "deterministic two_provider \<and>
   fst (GfxProcessor_process insertion_sort two_provider
          \<lparr>Path = ''/a.jpg'', Dimensions = [dim 10 10]\<rparr> world0) = Inl OutOfRange \<and>
   fst (GfxProcessor_process insertion_sort two_provider
          \<lparr>Path = ''/a.jpg'', Dimensions = [dim 10 10]\<rparr>
          (snd (GfxProcessor_process insertion_sort two_provider
                  \<lparr>Path = ''/a.jpg'', Dimensions = [dim 10 10]\<rparr> world0))) = Inl OutOfRange"
proof -
  have d: "deterministic two_provider"
    by (simp add: deterministic_def two_provider_def)
  have f: "fst (GfxProcessor_process insertion_sort two_provider
                  \<lparr>Path = ''/a.jpg'', Dimensions = [dim 10 10]\<rparr> s) = Inl OutOfRange"
    for s :: "(unit, nat) world"
    by (simp add: GfxProcessor_process_def call_generateImages_def two_provider_def
        sorted_indices_def iota_def sortedDimensions_def assign_back.simps)
  show ?thesis using d f by simp
qed

text \<open>
  Claim C9, amended. For a deterministic provider that returns at most as many images
  as it is given dimensions, invoking \<^verbatim>\<open>process\<close> twice with the same task, the second
  time in the state the first invocation left, yields a result both times, and the same
  one: the same status and the same list of images.
\<close>

theorem C9_process_twice_same_result:
  assumes det: "deterministic gen"
    and c: "std_sort_contract srt"
    and len: "Dimensions task = [] \<or>
              length (fst (gen (provider_state s) (fromPlatformEncodedAbsolute (Path task))
                             (sortedDimensions (Dimensions task)
                                (sorted_indices srt (Dimensions task)))))
                \<le> length (Dimensions task)"
    and first: "GfxProcessor_process srt gen task s = (r1, s1)"
    and second: "GfxProcessor_process srt gen task s1 = (r2, s2)"
  shows "\<exists>res. r1 = Inr res \<and> r2 = Inr res"
proof -
  have same: "r1 = r2"
    using process_result_independent_of_state[OF det, of srt task s s1] first second by simp
  have "\<exists>res. r1 = Inr res"
  proof (cases "Dimensions task = []")
    case True
    then show ?thesis using first by (auto simp add: process_empty)
  next
    case False
    let ?path = "fromPlatformEncodedAbsolute (Path task)"
    let ?sd = "sortedDimensions (Dimensions task) (sorted_indices srt (Dimensions task))"
    obtain images ps' where g: "gen (provider_state s) ?path ?sd = (images, ps')"
      by (cases "gen (provider_state s) ?path ?sd")
    have l: "length images \<le> length (Dimensions task)" using len False g by simp
    from process_short_provider[where gen=gen and s=s and task=task and srt=srt, OF c False g l]
    obtain out where "fst (GfxProcessor_process srt gen task s)
                        = Inr \<lparr>ProcessStatus = SUCCESS, OutputImages = out\<rparr>"
      by blast
    then show ?thesis using first by simp
  qed
  then show ?thesis using same by blast
qed

lemma deterministic_each_provider: "deterministic each_provider"
  by (simp add: deterministic_def each_provider_def)

theorem C9_process_twice_same_result_witness:
  "deterministic each_provider \<and>
   (\<exists>res. fst (GfxProcessor_process insertion_sort each_provider task3 world0) = Inr res \<and>
          fst (GfxProcessor_process insertion_sort each_provider task3
                 (snd (GfxProcessor_process insertion_sort each_provider task3 world0)))
            = Inr res)"
proof -
  obtain r1 s1 where a: "GfxProcessor_process insertion_sort each_provider task3 world0 = (r1, s1)"
    by (cases "GfxProcessor_process insertion_sort each_provider task3 world0")
  obtain r2 s2 where b: "GfxProcessor_process insertion_sort each_provider task3 s1 = (r2, s2)"
    by (cases "GfxProcessor_process insertion_sort each_provider task3 s1")
  have l: "Dimensions task3 = [] \<or>
           length (fst (each_provider (provider_state world0)
                          (fromPlatformEncodedAbsolute (Path task3))
                          (sortedDimensions (Dimensions task3)
                             (sorted_indices insertion_sort (Dimensions task3)))))
             \<le> length (Dimensions task3)"
    by (simp add: each_provider_def sortedDimensions_nth
        sorted_indices_length[OF insertion_sort_contract])
  have "\<exists>res. r1 = Inr res \<and> r2 = Inr res"
    by (rule C9_process_twice_same_result[OF deterministic_each_provider
          insertion_sort_contract l a b])
  then show ?thesis using a b deterministic_each_provider by simp
qed

section \<open>Claims about \<^verbatim>\<open>GfxProcessor::supportedformats\<close>\<close>

lemma extensions_of_extra:
  "extensions_of extraFormatsByWorker = [''.tif'', ''.exr'', ''.pic'', ''.pct'', ''.tiff'', ''.pict'']"
  by (simp add: extraFormatsByWorker_def)

lemma extensions_of_Nil: "extensions_of s = [] \<longleftrightarrow> s = []"
  by (induction s rule: extensions_of.induct) (auto split: list.splits)

lemma concat_extensions_of: "concat (extensions_of s) = s"
  by (induction s rule: extensions_of.induct) (auto simp: extensions_of_Nil split: list.splits)

text \<open>
  Claim C4. \<^verbatim>\<open>supportedformats\<close> returns the provider's format list with the fixed
  suffix appended when the provider's list is present: for \<^verbatim>\<open>.jpg.png\<close> it returns
  \<^verbatim>\<open>.jpg.png.tif.exr.pic.pct.tiff.pict\<close>. When the provider returns a null pointer it
  returns the empty string, without the suffix.
\<close>

theorem C4_supportedformats:
  "GfxProcessor_supportedformats (Some ''.jpg.png'') = ''.jpg.png.tif.exr.pic.pct.tiff.pict'' \<and>
   GfxProcessor_supportedformats None = [] \<and>
   (\<forall>f. GfxProcessor_supportedformats (Some f) = f @ ''.tif.exr.pic.pct.tiff.pict'')"
  by (simp add: GfxProcessor_supportedformats_def extraFormatsByWorker_def)

text \<open>
  Claim C5, as stated, fails: in the suffix, \<^verbatim>\<open>.tif\<close> is listed first (position 0) and
  \<^verbatim>\<open>.tiff\<close>, of which it is a proper prefix, is listed after it (position 4).
\<close>

theorem C5_longer_first_counterexample:
  "extensions_of extraFormatsByWorker ! 0 = ''.tif'' \<and>
   extensions_of extraFormatsByWorker ! 4 = ''.tiff'' \<and>
   strict_prefix ''.tif'' ''.tiff'' \<and>
   position_of ''.tif'' (extensions_of extraFormatsByWorker) = Some 0 \<and>
   position_of ''.tiff'' (extensions_of extraFormatsByWorker) = Some 4"
  by (simp add: extensions_of_extra)

text \<open>
  Claim C5, amended. In the suffix every extension that is a proper prefix of another
  one is listed before it, and the extensions are listed in order of non-decreasing
  length, as the comment above the function says; in particular \<^verbatim>\<open>.tif\<close> is listed
  before \<^verbatim>\<open>.tiff\<close>.
\<close>

theorem C5_shorter_first:
  "(\<forall>i j. i < length (extensions_of extraFormatsByWorker) \<and>
          j < length (extensions_of extraFormatsByWorker) \<and>
          strict_prefix (extensions_of extraFormatsByWorker ! i)
                        (extensions_of extraFormatsByWorker ! j) \<longrightarrow> i < j) \<and>
   sorted (map length (extensions_of extraFormatsByWorker)) \<and>
   position_of ''.tif'' (extensions_of extraFormatsByWorker) = Some 0 \<and>
   position_of ''.tiff'' (extensions_of extraFormatsByWorker) = Some 4"
proof -
  have "i < j" if "i < 6" "j < 6"
    "strict_prefix ([''.tif'', ''.exr'', ''.pic'', ''.pct'', ''.tiff'', ''.pict''] ! i)
                   ([''.tif'', ''.exr'', ''.pic'', ''.pct'', ''.tiff'', ''.pict''] ! j)" for i j :: nat
  proof -
    have "i \<in> {0, 1, 2, 3, 4, 5}" "j \<in> {0, 1, 2, 3, 4, 5}" using that(1,2) by auto
    then show ?thesis using that(3) by (elim insertE emptyE; simp)
  qed
  then show ?thesis by (simp add: extensions_of_extra)
qed

theorem C5_shorter_first_witness:
  "strict_prefix (extensions_of extraFormatsByWorker ! 2) (extensions_of extraFormatsByWorker ! 5) \<and>
   (2::nat) < 5"
  using C5_shorter_first by (simp add: extensions_of_extra)

section \<open>Claims about \<^verbatim>\<open>RequestProcessor\<close>\<close>

text \<open>
  Claim C6. When the processor returns a result for the task of a NewGfx command,
  \<^verbatim>\<open>processGfx\<close> writes one response on the endpoint: it carries the result's images, and
  the status \<open>SUCCESS\<close> is mapped to error code 0 with the text \<^verbatim>\<open>OK\<close>, the status \<open>ERR\<close>
  to error code 1 with the text \<^verbatim>\<open>ERROR\<close>.
\<close>

theorem C6_gfx_response_mapping:
  assumes "process mGfxProcessor task s = (Inr result, s')"
  shows "\<exists>resp. processGfx mGfxProcessor endpoint task s
                  = (None, s'\<lparr>written := written s' @
                                 [(endpoint, NewGfxResponse resp, WRITE_TIMEOUT)]\<rparr>) \<and>
                Images resp = OutputImages result \<and>
                (ProcessStatus result = SUCCESS \<longrightarrow> ErrorCode resp = 0 \<and> ErrorText resp = ''OK'') \<and>
                (ProcessStatus result = ERR \<longrightarrow> ErrorCode resp = 1 \<and> ErrorText resp = ''ERROR'')"
  using assms
  by (intro exI[of _ "gfx_response result"])
     (simp add: processGfx_def writeCommand_def gfx_response_def)

theorem C6_gfx_response_mapping_witness:
  "processGfx (GfxProcessor insertion_sort each_provider None None) 7
      \<lparr>Path = ''/a.jpg'', Dimensions = []\<rparr> world0
     = (None, world0\<lparr>written :=
          [(7, NewGfxResponse \<lparr>ErrorCode = 1, ErrorText = ''ERROR'', Images = []\<rparr>, 5000)]\<rparr>)"
proof -
  let ?P = "GfxProcessor insertion_sort each_provider None None :: (unit, nat) IGfxProcessor"
  let ?task = "\<lparr>Path = ''/a.jpg'', Dimensions = []\<rparr>"
  have p: "process ?P ?task world0 = (Inr \<lparr>ProcessStatus = ERR, OutputImages = []\<rparr>, world0)"
    by (simp add: GfxProcessor_def process_empty)
  from C6_gfx_response_mapping[OF p, of 7]
  obtain resp where r: "processGfx ?P 7 ?task world0
        = (None, world0\<lparr>written := written world0 @ [(7, NewGfxResponse resp, WRITE_TIMEOUT)]\<rparr>)"
    and f: "Images resp = []" "ErrorCode resp = 1" "ErrorText resp = ''ERROR''"
    by auto
  have "resp = \<lparr>ErrorCode = 1, ErrorText = ''ERROR'', Images = []\<rparr>"
    using f by simp
  then show ?thesis using r by (simp add: world0_def WRITE_TIMEOUT_def)
qed

text \<open>
  Claim C7. The read deadline is 5000 ms. When the reader delivers no command (a short
  read, a malformed frame, an unsupported version and an expired deadline all reach
  \<^verbatim>\<open>process\<close> as the same null pointer), \<^verbatim>\<open>process\<close> returns \<open>False\<close> and leaves the state
  as it was: nothing is written on the endpoint and nothing is pushed to the pool.
\<close>

theorem C7_failed_read:
  "READ_TIMEOUT = 5000 \<and>
   (readCommand endpoint READ_TIMEOUT = None \<longrightarrow>
      RequestProcessor_process readCommand endpoint s = (False, s) \<and>
      written (snd (RequestProcessor_process readCommand endpoint s)) = written s \<and>
      pool_tasks (snd (RequestProcessor_process readCommand endpoint s)) = pool_tasks s)"
  by (simp add: READ_TIMEOUT_def RequestProcessor_process_def)

theorem C7_failed_read_witness:
  "failing_reader 7 5000 = None \<and>
   RequestProcessor_process failing_reader 7 world0 = (False, world0) \<and>
   written (snd (RequestProcessor_process failing_reader 7 world0)) = [] \<and>
   pool_tasks (snd (RequestProcessor_process failing_reader 7 world0)) = []"
  using C7_failed_read[of failing_reader 7 world0]
  by (simp add: failing_reader_def world0_def)

text \<open>
  Claim C8. When the reader delivers a command, \<^verbatim>\<open>process\<close> pushes exactly one closure
  to the pool, the one capturing this endpoint and this command, writes nothing itself,
  and returns \<open>True\<close> if and only if the command's type is \<open>SHUTDOWN\<close>. A shutdown
  command is queued like the others; its closure, when the pool runs it, goes to the
  shutdown handler, which writes the acknowledgement.
\<close>

theorem C8_decoded_command_is_queued:
  assumes "readCommand endpoint READ_TIMEOUT = Some command"
  shows "fst (RequestProcessor_process readCommand endpoint s)
           = (type_of_command command = SHUTDOWN) \<and>
         pool_tasks (snd (RequestProcessor_process readCommand endpoint s))
           = pool_tasks s @ [(endpoint, command)] \<and>
         written (snd (RequestProcessor_process readCommand endpoint s)) = written s \<and>
         provider_calls (snd (RequestProcessor_process readCommand endpoint s)) = provider_calls s \<and>
         (command = CommandShutDown \<longrightarrow>
            (\<forall>t. run_task mGfxProcessor (endpoint, command) t
                   = (None, t\<lparr>written := written t @ [(endpoint, ShutDownResponse, WRITE_TIMEOUT)]\<rparr>)))"
  using assms
  by (simp add: RequestProcessor_process_def push_def processShutDown_def writeCommand_def)

theorem C8_decoded_command_is_queued_witness:
  "fst (RequestProcessor_process shutdown_reader 7 world0) = True \<and>
   pool_tasks (snd (RequestProcessor_process shutdown_reader 7 world0)) = [(7, CommandShutDown)] \<and>
   written (snd (RequestProcessor_process shutdown_reader 7 world0)) = [] \<and>
   run_task (GfxProcessor insertion_sort each_provider None None) (7, CommandShutDown) world0
     = (None, world0\<lparr>written := [(7, ShutDownResponse, 5000)]\<rparr>)"
proof -
  have r: "shutdown_reader 7 READ_TIMEOUT = Some CommandShutDown"
    by (simp add: shutdown_reader_def)
  show ?thesis
    using C8_decoded_command_is_queued[where readCommand = shutdown_reader and endpoint = 7
        and command = CommandShutDown and s = world0
        and mGfxProcessor = "GfxProcessor insertion_sort each_provider None None", OF r]
    by (simp add: world0_def WRITE_TIMEOUT_def)
qed

end
